theory Spec2Isabelle
  imports Complex_Main
begin

section \<open>Paper trading positions (PaperTradingService.calculateNewPosition)\<close>

text \<open>
  JavaScript numbers are modelled as reals: no rounding and no overflow. A division whose
  divisor is zero gives NaN or an infinity in JavaScript; such a non-finite number is the
  value \<open>None\<close> of \<open>real option\<close>, and it stays non-finite through every later addition,
  subtraction, multiplication with a finite number and division by a finite number, which
  is what the lifted operations below compute. A position's quantity only ever has finite
  numbers added to or subtracted from it, so it is a plain real.
\<close>

type_synonym num = "real option"

definition num_add :: "num \<Rightarrow> num \<Rightarrow> num" where
  "num_add a b = (case a of None \<Rightarrow> None | Some x \<Rightarrow> (case b of None \<Rightarrow> None | Some y \<Rightarrow> Some (x + y)))"

definition num_sub :: "num \<Rightarrow> num \<Rightarrow> num" where
  "num_sub a b = (case a of None \<Rightarrow> None | Some x \<Rightarrow> (case b of None \<Rightarrow> None | Some y \<Rightarrow> Some (x - y)))"

definition num_mul :: "num \<Rightarrow> num \<Rightarrow> num" where
  "num_mul a b = (case a of None \<Rightarrow> None | Some x \<Rightarrow> (case b of None \<Rightarrow> None | Some y \<Rightarrow> Some (x * y)))"

text \<open>Division by a finite divisor: non-finite when the divisor is zero.\<close>

definition num_div :: "num \<Rightarrow> real \<Rightarrow> num" where
  "num_div a d = (case a of None \<Rightarrow> None | Some x \<Rightarrow> (if d = 0 then None else Some (x / d)))"

datatype side = Buy | Sell

record position =
  symbol :: string
  quantity :: real
  averagePrice :: num
  unrealizedPnL :: real
  realizedPnL :: num

text \<open>
  The first argument is \<open>None\<close> for the source's \<open>null\<close> (no current position). The
  branches are the source's, in its order: a buy always takes the weighted-cost branch,
  a sell realises profit when the remaining quantity is not negative and otherwise
  re-prices the position at the trade price.
\<close>

fun calculateNewPosition :: "position option \<Rightarrow> side \<Rightarrow> real \<Rightarrow> real \<Rightarrow> string \<Rightarrow> position" where
  "calculateNewPosition None sd qty price smb =
     \<lparr>symbol = smb,
      quantity = (if sd = Buy then qty else - qty),
      averagePrice = Some price,
      unrealizedPnL = 0,
      realizedPnL = Some 0\<rparr>"
| "calculateNewPosition (Some cur) sd qty price smb =
     (if sd = Buy then
        (let totalCost = num_add (num_mul (Some (quantity cur)) (averagePrice cur)) (Some (qty * price));
             newQuantity = quantity cur + qty
         in \<lparr>symbol = symbol cur,
             quantity = newQuantity,
             averagePrice = num_div totalCost newQuantity,
             unrealizedPnL = 0,
             realizedPnL = realizedPnL cur\<rparr>)
      else
        (let newQuantity = quantity cur - qty
         in if newQuantity \<ge> 0 then
              \<lparr>symbol = symbol cur,
               quantity = newQuantity,
               averagePrice = averagePrice cur,
               unrealizedPnL = 0,
               realizedPnL = num_add (realizedPnL cur)
                  (num_mul (Some qty) (num_sub (Some price) (averagePrice cur)))\<rparr>
            else
              (let totalCost = \<bar>newQuantity\<bar> * price
               in \<lparr>symbol = symbol cur,
                   quantity = newQuantity,
                   averagePrice = num_div (Some totalCost) \<bar>newQuantity\<bar>,
                   unrealizedPnL = 0,
                   realizedPnL = realizedPnL cur\<rparr>)))"

section \<open>The two-tier cache (CacheService)\<close>

text \<open>
  The memory tier is a JavaScript \<open>Map\<close>: it iterates in insertion order, \<open>set\<close> on a
  key already present replaces the value in place and on a new key appends, \<open>delete\<close>
  removes the key. It is modelled as an association list, oldest key first.
\<close>

fun map_set :: "'k \<Rightarrow> 'a \<Rightarrow> ('k \<times> 'a) list \<Rightarrow> ('k \<times> 'a) list" where
  "map_set k v [] = [(k, v)]"
| "map_set k v (kv # m) = (if fst kv = k then (k, v) # m else kv # map_set k v m)"

definition map_delete :: "'k \<Rightarrow> ('k \<times> 'a) list \<Rightarrow> ('k \<times> 'a) list" where
  "map_delete k m = filter (\<lambda>kv. fst kv \<noteq> k) m"

record 'v entry =
  data :: 'v
  timestamp :: real
  ttl :: real

text \<open>
  The state of one CacheService. Times are in milliseconds, \<open>clock\<close> is what
  \<open>Date.now()\<close> reads. \<open>redisReady\<close> stands for the test
  \<open>this.redisClient && this.redisClient.status === 'ready'\<close>; \<open>redisDown\<close> says that a
  command sent to Redis is rejected, which every operation catches and logs. Redis keeps
  each value with the instant at which its own expiry removes it. Values are stored in
  Redis as they are: \<open>JSON.parse (JSON.stringify v)\<close> is taken to be \<open>v\<close>, as it is for
  strings, booleans, finite numbers and the arrays and objects made of them.

  \<open>regExpTest\<close> is the regular expression engine of the runtime, a parameter like the
  clock: \<open>regExpTest source str\<close> is what \<open>new RegExp(source).test(str)\<close> answers, and
  \<open>None\<close> when \<open>RegExp\<close> raises a syntax error on \<open>source\<close>.
\<close>

record 'v cache =
  memoryCache :: "(string \<times> 'v entry) list"
  memoryTtl :: real
  redisTtl :: real
  maxMemorySize :: nat
  redisReady :: bool
  redisDown :: bool
  redisStore :: "(string \<times> 'v \<times> real) list"
  clock :: real
  regExpTest :: "string \<Rightarrow> string \<Rightarrow> bool option"

text \<open>
  An optional numeric argument is \<open>None\<close> when omitted. \<open>ttl || d\<close> and \<open>ttl ? a : b\<close>
  test truthiness: an omitted argument and the number zero both take the default.
\<close>

definition or_default :: "real option \<Rightarrow> real \<Rightarrow> real" where
  "or_default t d = (case t of None \<Rightarrow> d | Some x \<Rightarrow> (if x = 0 then d else x))"

text \<open>
  \<open>setMemory\<close>: at capacity, the first key of the map is read and deleted when it is
  truthy (\<open>if (firstKey)\<close>): an empty map gives \<open>undefined\<close> and the empty string is
  falsy, so neither is deleted. Then the entry is set.
\<close>

definition setMemory :: "string \<Rightarrow> 'v \<Rightarrow> real option \<Rightarrow> 'v cache \<Rightarrow> 'v cache" where
  "setMemory key val t c =
     (let m = memoryCache c;
          m1 = (if length m \<ge> maxMemorySize c then
                  (case m of
                     [] \<Rightarrow> m
                   | kv # _ \<Rightarrow> (if fst kv \<noteq> [] then map_delete (fst kv) m else m))
                else m)
      in c\<lparr>memoryCache :=
            map_set key \<lparr>data = val, timestamp = clock c, ttl = or_default t (memoryTtl c)\<rparr> m1\<rparr>)"

text \<open>The Redis command \<open>GET\<close>: the value, unless Redis has expired it.\<close>

definition redis_get :: "string \<Rightarrow> 'v cache \<Rightarrow> 'v option" where
  "redis_get key c =
     (case map_of (redisStore c) key of
        None \<Rightarrow> None
      | Some (v, expiresAt) \<Rightarrow> (if clock c < expiresAt then Some v else None))"

text \<open>The second half of \<open>get\<close>: the fallback to Redis, which repopulates the memory tier.\<close>

definition get_from_redis :: "string \<Rightarrow> 'v cache \<Rightarrow> 'v option \<times> 'v cache" where
  "get_from_redis key c =
     (if redisReady c then
        (if redisDown c then (None, c)
         else (case redis_get key c of
                 Some v \<Rightarrow> (Some v, setMemory key v None c)
               | None \<Rightarrow> (None, c)))
      else (None, c))"

definition cache_get :: "string \<Rightarrow> 'v cache \<Rightarrow> 'v option \<times> 'v cache" where
  "cache_get key c =
     (case map_of (memoryCache c) key of
        Some memoryEntry \<Rightarrow>
          (if clock c - timestamp memoryEntry < ttl memoryEntry
           then (Some (data memoryEntry), c)
           else get_from_redis key (c\<lparr>memoryCache := map_delete key (memoryCache c)\<rparr>))
      | None \<Rightarrow> get_from_redis key c)"

definition cache_set :: "string \<Rightarrow> 'v \<Rightarrow> real option \<Rightarrow> 'v cache \<Rightarrow> 'v cache" where
  "cache_set key val t c =
     (let memTtl = (case t of None \<Rightarrow> memoryTtl c
                    | Some x \<Rightarrow> (if x = 0 then memoryTtl c else x * 1000));
          redTtl = or_default t (redisTtl c);
          c1 = setMemory key val (Some memTtl) c
      in if redisReady c1 \<and> \<not> redisDown c1
         then c1\<lparr>redisStore := map_set key (val, clock c1 + redTtl * 1000) (redisStore c1)\<rparr>
         else c1)"

definition cache_delete :: "string \<Rightarrow> 'v cache \<Rightarrow> 'v cache" where
  "cache_delete key c =
     (let c1 = c\<lparr>memoryCache := map_delete key (memoryCache c)\<rparr>
      in if redisReady c1 \<and> \<not> redisDown c1
         then c1\<lparr>redisStore := map_delete key (redisStore c1)\<rparr>
         else c1)"

subsection \<open>Pattern matching\<close>

text \<open>
  \<open>matchPattern\<close> replaces every \<open>*\<close> of the pattern by \<open>.*\<close>, puts the result between
  \<open>^\<close> and \<open>$\<close>, compiles it with \<open>RegExp\<close> and tests the string; whatever else the
  pattern holds is therefore regular expression syntax. The first argument is the engine.
\<close>

fun replace_star :: "string \<Rightarrow> string" where
  "replace_star [] = []"
| "replace_star (c # cs) = (if c = CHR ''*'' then ''.*'' @ replace_star cs else c # replace_star cs)"

definition matchPattern :: "(string \<Rightarrow> string \<Rightarrow> bool option) \<Rightarrow> string \<Rightarrow> string \<Rightarrow> bool option" where
  "matchPattern engine str pattern =
     (let regexPattern = replace_star pattern
      in engine (''^'' @ regexPattern @ ''$'') str)"

text \<open>
  The glob patterns of the specification, in its words: \<open>*\<close> matches any substring, every
  other character matches itself. Redis answers \<open>KEYS\<close> with the keys matching such a
  pattern (the other wildcards of Redis, \<open>?\<close>, \<open>[...]\<close> and the escape, are not
  modelled).
\<close>

fun glob_match :: "string \<Rightarrow> string \<Rightarrow> bool" where
  "glob_match [] s = (s = [])"
| "glob_match (p # ps) [] = (p = CHR ''*'' \<and> glob_match ps [])"
| "glob_match (p # ps) (c # s) =
     (if p = CHR ''*'' then glob_match ps (c # s) \<or> glob_match (p # ps) s
      else p = c \<and> glob_match ps s)"

definition redis_keys :: "string \<Rightarrow> 'v cache \<Rightarrow> string list" where
  "redis_keys pattern c = filter (glob_match pattern) (map fst (redisStore c))"

text \<open>
  The loop of \<open>invalidatePattern\<close> over the keys of the memory tier: \<open>matchPattern\<close> is
  evaluated for each key in turn, so with no key at all the pattern is never compiled. A
  syntax error raised by \<open>RegExp\<close> leaves the loop, and \<open>invalidatePattern\<close>, at once
  (\<open>None\<close>), before anything is deleted.
\<close>

fun keysToDelete :: "(string \<Rightarrow> string \<Rightarrow> bool option) \<Rightarrow> string \<Rightarrow> string list \<Rightarrow> string list option" where
  "keysToDelete engine pattern [] = Some []"
| "keysToDelete engine pattern (key # keys) =
     (case matchPattern engine key pattern of
        None \<Rightarrow> None
      | Some b \<Rightarrow> map_option (\<lambda>ks. if b then key # ks else ks) (keysToDelete engine pattern keys))"

definition invalidatePattern :: "string \<Rightarrow> 'v cache \<Rightarrow> 'v cache option" where
  "invalidatePattern pattern c =
     (case keysToDelete (regExpTest c) pattern (map fst (memoryCache c)) of
        None \<Rightarrow> None
      | Some ks \<Rightarrow>
          (let c1 = c\<lparr>memoryCache := fold map_delete ks (memoryCache c)\<rparr>
           in Some (if redisReady c1 \<and> \<not> redisDown c1
                    then c1\<lparr>redisStore := fold map_delete (redis_keys pattern c1) (redisStore c1)\<rparr>
                    else c1)))"

subsection \<open>A regular expression engine\<close>

text \<open>
  An engine to run the operations on: \<open>RegExp\<close> without flags, for the expressions made
  of characters that stand for themselves, \<open>.\<close> (any character but a line terminator), a
  backslash before a syntax character (that character itself), the quantifiers \<open>*\<close>,
  \<open>+\<close> and \<open>?\<close> after one of these, each with an optional \<open>?\<close> behind it (the lazy
  form, which matches the same strings), and the assertions \<open>^\<close> (start of the string)
  and \<open>$\<close> (its end). A quantifier with nothing to repeat and a backslash at the end are
  the syntax errors of \<open>RegExp\<close>. Groups, alternatives, character classes, braces and the
  other escapes are not covered: on them this engine also answers \<open>None\<close>. Strings are
  byte strings here, so the line terminators are line feed and carriage return.
\<close>

datatype atom = Lit char | AnyChar

datatype item = One atom | Star atom | Plus atom | Opt atom | Bol | Eol

definition syntax_char :: "char \<Rightarrow> bool" where
  "syntax_char c = (c = CHR 0x5C \<or> c \<in> set ''^$.*+?()[]{}|'')"

definition line_terminator :: "char \<Rightarrow> bool" where
  "line_terminator c = (c = CHR 0x0A \<or> c = CHR 0x0D)"

text \<open>
  The parser reads one character at a time. \<open>Fresh\<close>: a new term may start.
  \<open>Seen a\<close>: the atom \<open>a\<close> has been read and a quantifier may follow. \<open>Quantified\<close>:
  a quantifier has just been read and its \<open>?\<close> may follow. \<open>Escaped\<close>: a backslash has
  been read.
\<close>

datatype pstate = Fresh | Seen atom | Quantified | Escaped

text \<open>A character where a term starts: the items it completes and the state it leaves.\<close>

definition term_start :: "char \<Rightarrow> (item list \<times> pstate) option" where
  "term_start c =
     (if c = CHR ''^'' then Some ([Bol], Fresh)
      else if c = CHR ''$'' then Some ([Eol], Fresh)
      else if c = CHR 0x5C then Some ([], Escaped)
      else if c = CHR ''.'' then Some ([], Seen AnyChar)
      else if syntax_char c then None
      else Some ([], Seen (Lit c)))"

fun parse_regex :: "pstate \<Rightarrow> string \<Rightarrow> item list option" where
  "parse_regex st [] =
     (case st of
        Fresh \<Rightarrow> Some []
      | Seen a \<Rightarrow> Some [One a]
      | Quantified \<Rightarrow> Some []
      | Escaped \<Rightarrow> None)"
| "parse_regex st (c # cs) =
     (case st of
        Escaped \<Rightarrow> (if syntax_char c then parse_regex (Seen (Lit c)) cs else None)
      | Seen a \<Rightarrow>
          (if c = CHR ''*'' then map_option ((#) (Star a)) (parse_regex Quantified cs)
           else if c = CHR ''+'' then map_option ((#) (Plus a)) (parse_regex Quantified cs)
           else if c = CHR ''?'' then map_option ((#) (Opt a)) (parse_regex Quantified cs)
           else (case term_start c of
                   None \<Rightarrow> None
                 | Some (emitted, st') \<Rightarrow> map_option ((@) (One a # emitted)) (parse_regex st' cs)))
      | Quantified \<Rightarrow>
          (if c = CHR ''?'' then parse_regex Fresh cs
           else (case term_start c of
                   None \<Rightarrow> None
                 | Some (emitted, st') \<Rightarrow> map_option ((@) emitted) (parse_regex st' cs)))
      | Fresh \<Rightarrow>
          (case term_start c of
             None \<Rightarrow> None
           | Some (emitted, st') \<Rightarrow> map_option ((@) emitted) (parse_regex st' cs)))"

fun atom_matches :: "atom \<Rightarrow> char \<Rightarrow> bool" where
  "atom_matches (Lit a) c = (a = c)"
| "atom_matches AnyChar c = (\<not> line_terminator c)"

text \<open>
  Whether the items match a prefix of the string; the flag says that the string is read
  from its start.
\<close>

fun matches_at :: "item list \<Rightarrow> bool \<Rightarrow> string \<Rightarrow> bool" where
  "matches_at [] b s = True"
| "matches_at (Bol # r) b s = (b \<and> matches_at r b s)"
| "matches_at (Eol # r) b s = (s = [] \<and> matches_at r b s)"
| "matches_at (One a # r) b [] = False"
| "matches_at (One a # r) b (c # s) = (atom_matches a c \<and> matches_at r False s)"
| "matches_at (Star a # r) b [] = matches_at r b []"
| "matches_at (Star a # r) b (c # s) =
     (matches_at r b (c # s) \<or> (atom_matches a c \<and> matches_at (Star a # r) False s))"
| "matches_at (Plus a # r) b [] = False"
| "matches_at (Plus a # r) b (c # s) = (atom_matches a c \<and> matches_at (Star a # r) False s)"
| "matches_at (Opt a # r) b [] = matches_at r b []"
| "matches_at (Opt a # r) b (c # s) =
     (matches_at r b (c # s) \<or> (atom_matches a c \<and> matches_at r False s))"

text \<open>\<open>test\<close> looks for a match starting anywhere in the string.\<close>

fun matches_somewhere :: "item list \<Rightarrow> bool \<Rightarrow> string \<Rightarrow> bool" where
  "matches_somewhere r b [] = matches_at r b []"
| "matches_somewhere r b (c # s) = (matches_at r b (c # s) \<or> matches_somewhere r False s)"

definition regExp_test :: "string \<Rightarrow> string \<Rightarrow> bool option" where
  "regExp_test source str =
     map_option (\<lambda>regex. matches_somewhere regex True str) (parse_regex Fresh source)"

text \<open>
  The expression a glob pattern without other syntax characters is translated to: a
  character for itself, \<open>*\<close> as \<open>.*\<close>.
\<close>

fun glob_regex :: "string \<Rightarrow> item list" where
  "glob_regex [] = []"
| "glob_regex (c # cs) = (if c = CHR ''*'' then Star AnyChar else One (Lit c)) # glob_regex cs"

text \<open>
  The expression a key without syntax characters other than the dot is translated to
  when it stands in a pattern: a character for itself, the dot as \<open>.\<close>.
\<close>

fun own_items :: "string \<Rightarrow> item list" where
  "own_items [] = []"
| "own_items (c # cs) = One (if c = CHR ''.'' then AnyChar else Lit c) # own_items cs"

subsection \<open>Sequences of writes and the shape of the memory tier\<close>

fun cache_sets :: "(string \<times> 'v \<times> real option) list \<Rightarrow> 'v cache \<Rightarrow> 'v cache" where
  "cache_sets [] c = c"
| "cache_sets (w # ws) c = cache_sets ws (cache_set (fst w) (fst (snd w)) (snd (snd w)) c)"

text \<open>
  What a \<open>Map\<close> within its bound looks like: no key twice, at most \<open>maxMemorySize\<close>
  entries; and no entry under the empty string.
\<close>

definition l1_ok :: "'v cache \<Rightarrow> bool" where
  "l1_ok c =
     (distinct (map fst (memoryCache c)) \<and> [] \<notin> fst ` set (memoryCache c)
      \<and> length (memoryCache c) \<le> maxMemorySize c)"

section \<open>The lock manager (AdvisoryLockService)\<close>

datatype error =
    LockUnavailable string
  | StoreConnectionError
  | QueryError
  | TradingDisabled
  | RegExpSyntaxError
  | InnerError string

text \<open>
  \<open>LockUnavailable key\<close> is the source's \<open>Error('Failed to acquire lock for key: ' + key)\<close>,
  \<open>StoreConnectionError\<close> a rejected \<open>pool.connect()\<close>, \<open>QueryError\<close> a rejected query,
  \<open>TradingDisabled\<close> the source's \<open>Error('Paper trading is disabled')\<close>, \<open>RegExpSyntaxError\<close>
  the syntax error \<open>RegExp\<close> raises on an expression, \<open>InnerError\<close> whatever a
  protected function raises.
\<close>

datatype client = Client nat

datatype dbop = OpConnect | OpSetTimeout | OpTryLock | OpUnlock

datatype event =
    Connect client
  | SetStatementTimeout client real
  | TryAdvisoryLock client int
  | AdvisoryUnlock client int
  | Release client

text \<open>
  The pool and the database as the service sees them. \<open>generateLockId\<close> (the first eight
  bytes of a SHA-256 digest, as a non-negative integer) is a parameter. \<open>heldLocks\<close> are
  the advisory locks some session holds; \<open>failing\<close> names the operations the database
  rejects; \<open>events\<close> lists the calls made on the pool and on its connections, oldest first:
  a connection handed out, a query issued, a connection given back with \<open>release()\<close>.
\<close>

record lockdb =
  generateLockId :: "string \<Rightarrow> int"
  lockTimeout :: real
  heldLocks :: "int list"
  failing :: "dbop list"
  nextClient :: nat
  events :: "event list"

definition acquireLock :: "string \<Rightarrow> real option \<Rightarrow> lockdb \<Rightarrow> (error + client option) \<times> lockdb" where
  "acquireLock lockKey timeout db =
     (let lockId = generateLockId db lockKey in
      if OpConnect \<in> set (failing db) then (Inl StoreConnectionError, db)
      else
        (let cl = Client (nextClient db);
             db1 = db\<lparr>nextClient := Suc (nextClient db), events := events db @ [Connect cl]\<rparr>;
             t = or_default timeout (lockTimeout db);
             db2 = db1\<lparr>events := events db1 @ [SetStatementTimeout cl t]\<rparr>
         in if OpSetTimeout \<in> set (failing db) then
              (Inl QueryError, db2\<lparr>events := events db2 @ [Release cl]\<rparr>)
            else
              (let db3 = db2\<lparr>events := events db2 @ [TryAdvisoryLock cl lockId]\<rparr>
               in if OpTryLock \<in> set (failing db) then
                    (Inl QueryError, db3\<lparr>events := events db3 @ [Release cl]\<rparr>)
                  else if lockId \<notin> set (heldLocks db) then
                    (Inr (Some cl), db3\<lparr>heldLocks := lockId # heldLocks db3\<rparr>)
                  else
                    (Inr None, db3\<lparr>events := events db3 @ [Release cl]\<rparr>))))"

definition releaseLock :: "client \<Rightarrow> string \<Rightarrow> lockdb \<Rightarrow> (error + unit) \<times> lockdb" where
  "releaseLock cl lockKey db =
     (let lockId = generateLockId db lockKey;
          db1 = db\<lparr>events := events db @ [AdvisoryUnlock cl lockId]\<rparr>
      in if OpUnlock \<in> set (failing db) then
           (Inl QueryError, db1\<lparr>events := events db1 @ [Release cl]\<rparr>)
         else
           (Inr (), db1\<lparr>heldLocks := remove1 lockId (heldLocks db1),
                        events := events db1 @ [Release cl]\<rparr>))"

text \<open>
  The protected function works on a state of its own, next to the lock manager's; it
  returns a value or raises. \<open>try { return await fn(client) } finally { await releaseLock }\<close>:
  the release runs after either outcome, and an error it raises replaces the outcome.
\<close>

definition withLock ::
  "string \<Rightarrow> (client \<Rightarrow> 's \<Rightarrow> (error + 'r) \<times> 's) \<Rightarrow> real option \<Rightarrow> lockdb \<times> 's
     \<Rightarrow> (error + 'r) \<times> lockdb \<times> 's" where
  "withLock lockKey fn timeout w =
     (case acquireLock lockKey timeout (fst w) of
        (Inl e, db1) \<Rightarrow> (Inl e, db1, snd w)
      | (Inr None, db1) \<Rightarrow> (Inl (LockUnavailable lockKey), db1, snd w)
      | (Inr (Some cl), db1) \<Rightarrow>
          (let (r, st1) = fn cl (snd w);
               (rel, db2) = releaseLock cl lockKey db1
           in ((case rel of Inl e \<Rightarrow> Inl e | Inr _ \<Rightarrow> r), db2, st1)))"

definition tryWithLock ::
  "string \<Rightarrow> (client \<Rightarrow> 's \<Rightarrow> (error + 'r) \<times> 's) \<Rightarrow> real option \<Rightarrow> lockdb \<times> 's
     \<Rightarrow> (error + 'r option) \<times> lockdb \<times> 's" where
  "tryWithLock lockKey fn timeout w =
     (case acquireLock lockKey timeout (fst w) of
        (Inl e, db1) \<Rightarrow> (Inl e, db1, snd w)
      | (Inr None, db1) \<Rightarrow> (Inr None, db1, snd w)
      | (Inr (Some cl), db1) \<Rightarrow>
          (let (r, st1) = fn cl (snd w);
               (rel, db2) = releaseLock cl lockKey db1
           in ((case rel of Inl e \<Rightarrow> Inl e | Inr _ \<Rightarrow> map_sum id Some r), db2, st1)))"

section \<open>The coordinator (PaperTradingService)\<close>

datatype status = Pending | Filled | Cancelled

record trade =
  trade_id :: string
  trade_symbol :: string
  trade_side :: side
  trade_quantity :: real
  trade_price :: real
  trade_timestamp :: real
  trade_status :: status

text \<open>The cache of the coordinator holds positions and trade records.\<close>

datatype cached = CPosition position | CTrade trade

record service =
  enabled :: bool
  advisoryLockService :: lockdb
  cacheService :: "cached cache"

text \<open>
  \<open>getPosition\<close> reads the key \<open>position:SYMBOL\<close>. Only \<open>storePosition\<close> writes keys
  with that prefix, so a value found there is a position; for any other value the model
  answers \<open>None\<close>.
\<close>

definition getPosition :: "string \<Rightarrow> cached cache \<Rightarrow> position option \<times> cached cache" where
  "getPosition smb c =
     (case cache_get (''position:'' @ smb) c of
        (Some (CPosition p), c1) \<Rightarrow> (Some p, c1)
      | (_, c1) \<Rightarrow> (None, c1))"

definition storePosition :: "string \<Rightarrow> position \<Rightarrow> cached cache \<Rightarrow> cached cache" where
  "storePosition smb p c = cache_set (''position:'' @ smb) (CPosition p) (Some 300) c"

definition storeTrade :: "trade \<Rightarrow> cached cache \<Rightarrow> cached cache" where
  "storeTrade t c = cache_set (''trade:'' @ trade_id t) (CTrade t) (Some 3600) c"

text \<open>
  The function \<open>executeTrade\<close> runs under the lock. The trade id (built by
  \<open>generateTradeId\<close> from the clock and \<open>Math.random\<close>) is an input. The steps are the
  source's: read the position, compute the new one, store it, invalidate
  \<open>position:SYMBOL*\<close>, store the trade record.
\<close>

definition tradeBody ::
  "string \<Rightarrow> side \<Rightarrow> real \<Rightarrow> real \<Rightarrow> string \<Rightarrow> client \<Rightarrow> cached cache
     \<Rightarrow> (error + trade) \<times> cached cache" where
  "tradeBody smb sd qty price tradeId cl c =
     (let (pos, c1) = getPosition smb c;
          newPosition = calculateNewPosition pos sd qty price smb;
          c2 = storePosition smb newPosition c1
      in case invalidatePattern (''position:'' @ smb @ ''*'') c2 of
           None \<Rightarrow> (Inl RegExpSyntaxError, c2)
         | Some c3 \<Rightarrow>
             (let t = \<lparr>trade_id = tradeId, trade_symbol = smb, trade_side = sd,
                       trade_quantity = qty, trade_price = price,
                       trade_timestamp = clock c3, trade_status = Filled\<rparr>
              in (Inr t, storeTrade t c3)))"

definition executeTrade ::
  "string \<Rightarrow> side \<Rightarrow> real \<Rightarrow> real \<Rightarrow> string \<Rightarrow> service \<Rightarrow> (error + trade) \<times> service" where
  "executeTrade smb sd qty price tradeId s =
     (if \<not> enabled s then (Inl TradingDisabled, s)
      else
        (let lockKey = ''paper_trade:'' @ smb;
             (result, db, c) = withLock lockKey (tradeBody smb sd qty price tradeId) None
                                 (advisoryLockService s, cacheService s)
         in (result, s\<lparr>advisoryLockService := db, cacheService := c\<rparr>)))"

definition getAllPositions :: "service \<Rightarrow> position list \<times> service" where
  "getAllPositions s = ([], s)"

definition getPositionBySymbol :: "string \<Rightarrow> service \<Rightarrow> position option \<times> service" where
  "getPositionBySymbol smb s =
     (let (pos, c1) = getPosition smb (cacheService s) in (pos, s\<lparr>cacheService := c1\<rparr>))"

definition closePosition ::
  "string \<Rightarrow> real \<Rightarrow> string \<Rightarrow> service \<Rightarrow> (error + trade option) \<times> service" where
  "closePosition smb price tradeId s =
     (let (pos, c1) = getPosition smb (cacheService s);
          s1 = s\<lparr>cacheService := c1\<rparr>
      in case pos of
           None \<Rightarrow> (Inr None, s1)
         | Some p \<Rightarrow>
             (if quantity p = 0 then (Inr None, s1)
              else
                (let sd = (if quantity p > 0 then Sell else Buy);
                     qty = \<bar>quantity p\<bar>;
                     (r, s2) = executeTrade smb sd qty price tradeId s1
                 in (map_sum id Some r, s2))))"

section \<open>Example states\<close>

text \<open>Small concrete states, on which the theorems below are instantiated.\<close>

definition empty_cache :: "nat \<Rightarrow> 'v cache" where
  "empty_cache n =
     \<lparr>memoryCache = [], memoryTtl = 300000, redisTtl = 3600, maxMemorySize = n,
      redisReady = False, redisDown = False, redisStore = [], clock = 1000,
      regExpTest = regExp_test\<rparr>"

definition expired_cache :: "nat cache" where
  "expired_cache = (empty_cache 100)
     \<lparr>memoryCache := [(''k'', \<lparr>data = 7, timestamp = 850, ttl = 100\<rparr>)]\<rparr>"

definition symbol_cache :: "nat cache" where
  "symbol_cache = (empty_cache 100)
     \<lparr>memoryCache := [(''position:AAPL'', \<lparr>data = 1, timestamp = 1000, ttl = 300000\<rparr>),
                      (''position:MSFT'', \<lparr>data = 2, timestamp = 1000, ttl = 300000\<rparr>),
                      (''position:AAPL_meta'', \<lparr>data = 3, timestamp = 1000, ttl = 300000\<rparr>)]\<rparr>"

definition brk_cache :: "nat cache" where
  "brk_cache = (empty_cache 100)
     \<lparr>memoryCache := [(''position:BRK.B'', \<lparr>data = 1, timestamp = 1000, ttl = 300000\<rparr>),
                      (''position:BRKXB'', \<lparr>data = 2, timestamp = 1000, ttl = 300000\<rparr>)]\<rparr>"

definition newline_cache :: "nat cache" where
  "newline_cache = (empty_cache 100)
     \<lparr>memoryCache := [([CHR ''a'', CHR 0x0A, CHR ''b''],
                       \<lparr>data = 1, timestamp = 1000, ttl = 300000\<rparr>)]\<rparr>"

definition free_db :: lockdb where
  "free_db =
     \<lparr>generateLockId = (\<lambda>k. int (length k)), lockTimeout = 5000, heldLocks = [],
      failing = [], nextClient = 0, events = []\<rparr>"

definition busy_db :: lockdb where
  "busy_db = free_db\<lparr>heldLocks := [1]\<rparr>"

definition long_position :: position where
  "long_position =
     \<lparr>symbol = ''AAPL'', quantity = 100, averagePrice = Some 150,
      unrealizedPnL = 0, realizedPnL = Some 0\<rparr>"

definition short_position :: position where
  "short_position =
     \<lparr>symbol = ''AAPL'', quantity = - 100, averagePrice = Some 150,
      unrealizedPnL = 0, realizedPnL = Some 0\<rparr>"

definition flat_service :: service where
  "flat_service =
     \<lparr>enabled = True, advisoryLockService = free_db, cacheService = empty_cache 100\<rparr>"

definition long_service :: service where
  "long_service = flat_service
     \<lparr>cacheService := (empty_cache 100)
        \<lparr>memoryCache := [(''position:AAPL'',
            \<lparr>data = CPosition long_position, timestamp = 1000, ttl = 300000\<rparr>)]\<rparr>\<rparr>"

text \<open>A service with nothing cached whose Redis is connected.\<close>

definition ready_service :: service where
  "ready_service = flat_service\<lparr>cacheService := (empty_cache 100)\<lparr>redisReady := True\<rparr>\<rparr>"

text \<open>Two protected functions: one returns its state, one raises.\<close>

definition returning :: "client \<Rightarrow> nat \<Rightarrow> (error + nat) \<times> nat" where
  "returning cl n = (Inr n, Suc n)"

definition raising :: "client \<Rightarrow> nat \<Rightarrow> (error + nat) \<times> nat" where
  "raising cl n = (Inl (InnerError ''boom''), Suc n)"

section \<open>Properties of the position arithmetic\<close>

text \<open>
  The three lemmas that follow are statements of exact arithmetic, as the model computes:
  a double rounds each operation, so the code's results agree with them up to rounding
  (and exactly on the small integers of the examples below).
\<close>

lemma buy_weighted_average:
  "quantity cur + qty \<noteq> 0 \<Longrightarrow> averagePrice cur = Some a \<Longrightarrow>
   calculateNewPosition (Some cur) Buy qty price smb =
     \<lparr>symbol = symbol cur, quantity = quantity cur + qty,
      averagePrice = Some ((quantity cur * a + qty * price) / (quantity cur + qty)),
      unrealizedPnL = 0, realizedPnL = realizedPnL cur\<rparr>"
  by (simp add: Let_def num_add_def num_mul_def num_div_def)

lemma sell_realizes_profit:
  "qty \<le> quantity cur \<Longrightarrow> averagePrice cur = Some a \<Longrightarrow> realizedPnL cur = Some r \<Longrightarrow>
   calculateNewPosition (Some cur) Sell qty price smb =
     \<lparr>symbol = symbol cur, quantity = quantity cur - qty,
      averagePrice = Some a,
      unrealizedPnL = 0, realizedPnL = Some (r + qty * (price - a))\<rparr>"
  by (simp add: Let_def num_add_def num_mul_def num_sub_def)

lemma sell_past_flat:
  "quantity cur < qty \<Longrightarrow>
   calculateNewPosition (Some cur) Sell qty price smb =
     \<lparr>symbol = symbol cur, quantity = quantity cur - qty,
      averagePrice = Some price,
      unrealizedPnL = 0, realizedPnL = realizedPnL cur\<rparr>"
  by (simp add: Let_def num_div_def)

text \<open>
  With no current position a buy opens a position of quantity \<open>+qty\<close> and a sell one of
  quantity \<open>-qty\<close>, in both cases with the trade price as average price and a realised
  profit of zero.
\<close>

lemma opening_position:
  "calculateNewPosition None Buy qty price smb =
     \<lparr>symbol = smb, quantity = qty, averagePrice = Some price,
      unrealizedPnL = 0, realizedPnL = Some 0\<rparr>
   \<and> calculateNewPosition None Sell qty price smb =
     \<lparr>symbol = smb, quantity = - qty, averagePrice = Some price,
      unrealizedPnL = 0, realizedPnL = Some 0\<rparr>"
  by simp

text \<open>
  C1. A trade in the direction of the position should give the weighted average
  \<open>(oldQty * oldAvg + addQty * price) / newQty\<close> as average price. A sell added to a
  short position of 100 at 150 (quantity \<open>-100\<close>), selling 100 more at 160, takes the
  branch for a negative remaining quantity: the average price becomes the trade price
  160, where the weighted average of the two costs is 155.
\<close>

theorem calculateNewPosition_sell_added_to_short:
  "calculateNewPosition (Some short_position) Sell 100 160 ''AAPL'' =
     \<lparr>symbol = ''AAPL'', quantity = - 200, averagePrice = Some 160,
      unrealizedPnL = 0, realizedPnL = Some 0\<rparr>
   \<and> (quantity short_position * 150 + (- 100) * 160) / (- 200) = 155"
  by (simp add: short_position_def Let_def num_div_def)

text \<open>
  C2. A trade against the position that leaves part of it open should add
  \<open>closedQty * (price - oldAvg)\<close> to the realised profit and keep the average price. A buy
  of 50 at 140 against the short position of 100 at 150 takes the buy branch, which
  only knows the weighted cost: the average price moves from 150 to 160 and the realised
  profit stays 0.
\<close>

theorem calculateNewPosition_buy_reduces_short:
  "calculateNewPosition (Some short_position) Buy 50 140 ''AAPL'' =
     \<lparr>symbol = ''AAPL'', quantity = - 50, averagePrice = Some 160,
      unrealizedPnL = 0, realizedPnL = Some 0\<rparr>
   \<and> averagePrice short_position = Some 150
   \<and> realizedPnL short_position = Some 0"
  by (simp add: short_position_def Let_def num_add_def num_mul_def num_div_def)

text \<open>
  C3. A trade against the position that is larger than the position should leave the
  excess as the new position at the trade price and credit the realised profit for the
  closed part. A sell of 150 at 170 against the long position of 100 at 150 leaves
  \<open>-50\<close> at 170 but credits nothing (the closed 100 earned 2000). A buy of 150 at 120
  against the short position of 100 at 150 leaves 50 at an average price of 60, not 120,
  and credits nothing either.
\<close>

theorem calculateNewPosition_reversal:
  "calculateNewPosition (Some long_position) Sell 150 170 ''AAPL'' =
     \<lparr>symbol = ''AAPL'', quantity = - 50, averagePrice = Some 170,
      unrealizedPnL = 0, realizedPnL = Some 0\<rparr>
   \<and> calculateNewPosition (Some short_position) Buy 150 120 ''AAPL'' =
     \<lparr>symbol = ''AAPL'', quantity = 50, averagePrice = Some 60,
      unrealizedPnL = 0, realizedPnL = Some 0\<rparr>
   \<and> quantity long_position * (170 - 150) = 2000"
  by (simp add: long_position_def short_position_def Let_def num_add_def num_mul_def num_div_def)

section \<open>Properties of the memory tier\<close>

lemma keys_map_set: "fst ` set (map_set k v m) = insert k (fst ` set m)"
  by (induction m) auto

lemma length_map_set:
  "length (map_set k v m) = (if k \<in> fst ` set m then length m else Suc (length m))"
  by (induction m) auto

lemma distinct_map_set: "distinct (map fst m) \<Longrightarrow> distinct (map fst (map_set k v m))"
  by (induction m) (auto simp: keys_map_set)

lemma map_set_nonempty: "map_set k v m \<noteq> []"
  by (cases m) auto

lemma map_of_map_set: "map_of (map_set k v m) = (map_of m)(k \<mapsto> v)"
  by (induction m) (auto simp: fun_eq_iff)

lemma map_of_map_delete: "map_of (map_delete k m) = (map_of m)(k := None)"
  by (induction m) (auto simp: map_delete_def fun_eq_iff)

lemma map_delete_first: "distinct (map fst (kv # m)) \<Longrightarrow> map_delete (fst kv) (kv # m) = m"
  by (auto simp: map_delete_def filter_id_conv rev_image_eqI)

lemma fold_map_delete: "fold map_delete ks m = filter (\<lambda>kv. fst kv \<notin> set ks) m"
  by (induction ks arbitrary: m) (auto simp: map_delete_def intro: filter_cong)

lemma map_of_filter_keys:
  "map_of (filter (\<lambda>kv. P (fst kv)) m) k = (if P k then map_of m k else None)"
  by (induction m) auto

subsection \<open>The bound on the memory tier\<close>

text \<open>
  Below capacity \<open>setMemory\<close> only sets the entry. At capacity, with a first key that is
  not the empty string, it drops exactly the first (oldest inserted) entry and then sets.
\<close>

lemma setMemory_below_capacity:
  assumes "length (memoryCache c) < maxMemorySize c"
  shows "memoryCache (setMemory key val t c) =
           map_set key \<lparr>data = val, timestamp = clock c, ttl = or_default t (memoryTtl c)\<rparr>
             (memoryCache c)"
  using assms by (simp add: setMemory_def Let_def)

lemma setMemory_at_capacity:
  assumes "distinct (map fst (memoryCache c))" and "memoryCache c = kv # m"
    and "maxMemorySize c \<le> length (memoryCache c)" and "fst kv \<noteq> []"
  shows "memoryCache (setMemory key val t c) =
           map_set key \<lparr>data = val, timestamp = clock c, ttl = or_default t (memoryTtl c)\<rparr> m"
  using assms map_delete_first[of kv m] by (simp add: setMemory_def Let_def)

lemma setMemory_maxMemorySize: "maxMemorySize (setMemory key val t c) = maxMemorySize c"
  by (simp add: setMemory_def Let_def)

lemma setMemory_l1_ok:
  assumes "l1_ok c" and "key \<noteq> []" and "0 < maxMemorySize c"
  shows "l1_ok (setMemory key val t c)"
proof (cases "length (memoryCache c) < maxMemorySize c")
  case True
  then show ?thesis
    using assms
    by (auto simp: l1_ok_def setMemory_below_capacity setMemory_maxMemorySize
        distinct_map_set keys_map_set length_map_set)
next
  case False
  with assms obtain kv m where m: "memoryCache c = kv # m"
    by (cases "memoryCache c") (auto simp: l1_ok_def)
  have first: "fst kv \<noteq> []"
    using assms(1) m by (auto simp: l1_ok_def)
  have after: "memoryCache (setMemory key val t c) =
      map_set key \<lparr>data = val, timestamp = clock c, ttl = or_default t (memoryTtl c)\<rparr> m"
    using setMemory_at_capacity[of c kv m key val t] assms(1) m False first
    by (simp add: l1_ok_def)
  show ?thesis
    using assms(1,2) m
    by (auto simp: l1_ok_def after setMemory_maxMemorySize distinct_map_set keys_map_set
        length_map_set)
qed

lemma cache_set_memoryCache:
  "memoryCache (cache_set key val t c) =
     memoryCache (setMemory key val
       (Some (case t of None \<Rightarrow> memoryTtl c
              | Some x \<Rightarrow> (if x = 0 then memoryTtl c else x * 1000))) c)"
  by (simp add: cache_set_def Let_def)

lemma cache_set_maxMemorySize: "maxMemorySize (cache_set key val t c) = maxMemorySize c"
  by (simp add: cache_set_def Let_def setMemory_maxMemorySize)

lemma cache_set_l1_ok:
  assumes "l1_ok c" and "key \<noteq> []" and "0 < maxMemorySize c"
  shows "l1_ok (cache_set key val t c)"
  using setMemory_l1_ok[OF assms]
  by (simp add: l1_ok_def cache_set_memoryCache cache_set_maxMemorySize setMemory_maxMemorySize)

text \<open>
  Every sequence of writes under non-empty keys keeps the memory tier within its bound.
\<close>

lemma cache_sets_l1_ok:
  "l1_ok c \<Longrightarrow> 0 < maxMemorySize c \<Longrightarrow> \<forall>w\<in>set ws. fst w \<noteq> [] \<Longrightarrow> l1_ok (cache_sets ws c)"
  by (induction ws arbitrary: c) (simp_all add: cache_set_l1_ok cache_set_maxMemorySize)

lemma cache_sets_maxMemorySize: "maxMemorySize (cache_sets ws c) = maxMemorySize c"
  by (induction ws arbitrary: c) (simp_all add: cache_set_maxMemorySize)

lemma cache_sets_bounded:
  assumes "l1_ok c" and "0 < maxMemorySize c" and "\<forall>w\<in>set ws. fst w \<noteq> []"
  shows "length (memoryCache (cache_sets ws c)) \<le> maxMemorySize c"
  using cache_sets_l1_ok[OF assms] by (simp add: l1_ok_def cache_sets_maxMemorySize)

text \<open>
  C6. The memory tier should never hold more than \<open>maxMemorySize\<close> entries, an insert at
  capacity evicting the oldest entry. With a bound of one entry, a write under the empty
  string followed by a write under \<open>a\<close> leaves two entries: the oldest key is the empty
  string, which the test \<open>if (firstKey)\<close> takes for no key, so nothing is evicted.
\<close>

theorem cache_set_empty_key_exceeds_bound:
  "map fst (memoryCache (cache_sets [([], 1::nat, None), (''a'', 2, None)] (empty_cache 1)))
     = [[], ''a'']
   \<and> maxMemorySize (cache_sets [([], 1::nat, None), (''a'', 2, None)] (empty_cache 1)) = 1"
  by (simp add: cache_set_def setMemory_def empty_cache_def Let_def or_default_def)

section \<open>Properties of reads\<close>

lemma get_from_redis_result:
  "fst (get_from_redis key c) = (if redisReady c \<and> \<not> redisDown c then redis_get key c else None)"
  by (simp add: get_from_redis_def split: option.splits)

lemma get_from_redis_miss:
  "fst (get_from_redis key c) = None \<Longrightarrow> snd (get_from_redis key c) = c"
  by (simp add: get_from_redis_def split: option.splits if_splits)

lemma redis_get_memoryCache: "redis_get key (c\<lparr>memoryCache := m\<rparr>) = redis_get key c"
  by (simp add: redis_get_def split: option.splits)

lemma cache_get_absent:
  assumes "map_of (memoryCache c) k = None"
    and "redisReady c \<and> \<not> redisDown c \<longrightarrow> map_of (redisStore c) k = None"
  shows "cache_get k c = (None, c)"
  using assms by (auto simp: cache_get_def get_from_redis_def redis_get_def)

text \<open>A live entry of the memory tier is what \<open>get\<close> returns; nothing changes.\<close>

lemma cache_get_live:
  assumes "map_of (memoryCache c) key = Some e" and "clock c - timestamp e < ttl e"
  shows "cache_get key c = (Some (data e), c)"
  using assms by (simp add: cache_get_def)

text \<open>A value written is read back at once, whatever the capacity.\<close>

lemma cache_set_then_get:
  assumes "0 < memoryTtl c" and "t = None \<or> (\<exists>x. t = Some x \<and> 0 \<le> x)"
  shows "cache_get key (cache_set key val t c) = (Some val, cache_set key val t c)"
proof -
  let ?ms = "case t of None \<Rightarrow> memoryTtl c | Some x \<Rightarrow> (if x = 0 then memoryTtl c else x * 1000)"
  let ?e = "\<lparr>data = val, timestamp = clock c, ttl = or_default (Some ?ms) (memoryTtl c)\<rparr>"
  have e: "map_of (memoryCache (cache_set key val t c)) key = Some ?e"
    by (simp add: cache_set_memoryCache setMemory_def Let_def map_of_map_set)
  have pos: "0 < ttl ?e"
    using assms by (auto simp: or_default_def)
  have clk: "clock (cache_set key val t c) = clock c"
    by (simp add: cache_set_def setMemory_def Let_def)
  show ?thesis
    using cache_get_live[OF e] pos clk by simp
qed

text \<open>
  C7. When the memory tier holds for the key an entry with \<open>now - writtenAt \<ge> ttl\<close>,
  \<open>get\<close> behaves as on the cache from which that entry has been removed: the answer is
  what Redis holds for the key, nothing when Redis is not ready, rejects the command or
  misses, and after such a miss the memory tier is the old one without the key.
\<close>

theorem cache_get_expired:
  assumes "map_of (memoryCache c) key = Some e" and "ttl e \<le> clock c - timestamp e"
  shows "cache_get key c = cache_get key (c\<lparr>memoryCache := map_delete key (memoryCache c)\<rparr>)
     \<and> fst (cache_get key c) = (if redisReady c \<and> \<not> redisDown c then redis_get key c else None)
     \<and> (fst (cache_get key c) = None \<longrightarrow>
          snd (cache_get key c) = c\<lparr>memoryCache := map_delete key (memoryCache c)\<rparr>)"
proof -
  let ?c1 = "c\<lparr>memoryCache := map_delete key (memoryCache c)\<rparr>"
  have absent: "map_of (memoryCache ?c1) key = None"
    by (simp add: map_of_map_delete)
  have here: "cache_get key c = get_from_redis key ?c1"
    using assms by (simp add: cache_get_def)
  have there: "cache_get key ?c1 = get_from_redis key ?c1"
    using absent by (simp add: cache_get_def)
  have answer: "fst (get_from_redis key ?c1) =
      (if redisReady c \<and> \<not> redisDown c then redis_get key c else None)"
    by (simp add: get_from_redis_result redis_get_memoryCache)
  show ?thesis
    using here there answer get_from_redis_miss[of key ?c1] by simp
qed

theorem cache_get_expired_witness:
  "map_of (memoryCache expired_cache) ''k'' = Some \<lparr>data = 7, timestamp = 850, ttl = 100\<rparr>
   \<and> (100::real) \<le> clock expired_cache - 850
   \<and> fst (cache_get ''k'' expired_cache) = None
   \<and> memoryCache (snd (cache_get ''k'' expired_cache)) = []"
proof -
  let ?e = "\<lparr>data = 7::nat, timestamp = 850, ttl = 100\<rparr>"
  have h1: "map_of (memoryCache expired_cache) ''k'' = Some ?e"
    by (simp add: expired_cache_def empty_cache_def)
  have h2: "ttl ?e \<le> clock expired_cache - timestamp ?e"
    by (simp add: expired_cache_def empty_cache_def)
  note th = cache_get_expired[OF h1 h2]
  have r: "fst (cache_get ''k'' expired_cache) = None"
    using th[THEN conjunct2, THEN conjunct1] by (simp add: expired_cache_def empty_cache_def)
  have s: "memoryCache (snd (cache_get ''k'' expired_cache))
             = map_delete ''k'' (memoryCache expired_cache)"
    using th[THEN conjunct2, THEN conjunct2] r by simp
  show ?thesis
    using h1 h2 r s by (simp add: expired_cache_def empty_cache_def map_delete_def)
qed

section \<open>Properties of pattern invalidation\<close>

lemma matchPattern_source:
  "matchPattern engine str pattern = engine (''^'' @ replace_star pattern @ ''$'') str"
  by (simp add: matchPattern_def)

lemma keysToDelete_answers:
  assumes "\<forall>k\<in>set keys. matchPattern engine k pattern = Some (P k)"
  shows "keysToDelete engine pattern keys = Some (filter P keys)"
  using assms by (induction keys) auto

lemma keysToDelete_member:
  "keysToDelete engine pattern keys = Some ks \<Longrightarrow> k \<in> set keys \<Longrightarrow>
   matchPattern engine k pattern = Some True \<Longrightarrow> k \<in> set ks"
  by (induction keys arbitrary: ks) (auto split: option.splits if_splits)

text \<open>
  Where the engine answers on every key of the memory tier, \<open>invalidatePattern\<close> leaves
  exactly the entries on whose key the answer is no, unchanged and in their order.
\<close>

lemma invalidatePattern_keeps_unmatched:
  assumes "\<forall>k\<in>fst ` set (memoryCache c). matchPattern (regExpTest c) k pattern = Some (P k)"
  shows "map_option memoryCache (invalidatePattern pattern c)
           = Some (filter (\<lambda>kv. \<not> P (fst kv)) (memoryCache c))"
proof -
  have "keysToDelete (regExpTest c) pattern (map fst (memoryCache c))
          = Some (filter P (map fst (memoryCache c)))"
    using assms by (intro keysToDelete_answers) simp
  then show ?thesis
    by (auto simp: invalidatePattern_def Let_def fold_map_delete intro: filter_cong)
qed

subsection \<open>The translated expression and the glob pattern\<close>

text \<open>
  On a pattern without syntax characters other than \<open>*\<close>, and a key without line
  terminators, the translated expression decides glob matching as the specification
  words it.
\<close>

lemma term_start_plain: "\<not> syntax_char c \<Longrightarrow> term_start c = Some ([], Seen (Lit c))"
  by (auto simp: term_start_def syntax_char_def)

lemma term_start_dot: "term_start (CHR ''.'') = Some ([], Seen AnyChar)"
  by (simp add: term_start_def)

lemma term_start_end: "term_start (CHR ''$'') = Some ([Eol], Fresh)"
  by (simp add: term_start_def)

lemma plain_not_quantifier:
  "\<not> syntax_char c \<Longrightarrow> c \<noteq> CHR ''*'' \<and> c \<noteq> CHR ''+'' \<and> c \<noteq> CHR ''?''"
  by (auto simp: syntax_char_def)

lemma parse_regex_glob:
  assumes "\<forall>ch\<in>set p. ch = CHR ''*'' \<or> \<not> syntax_char ch" and "st \<noteq> Escaped"
  shows "parse_regex st (replace_star p @ ''$'')
           = Some ((case st of Seen a \<Rightarrow> [One a] | _ \<Rightarrow> []) @ glob_regex p @ [Eol])"
  using assms
proof (induction p arbitrary: st)
  case Nil
  then show ?case
    by (cases st) (simp_all add: term_start_end)
next
  case (Cons c cs)
  show ?case
  proof (cases "c = CHR ''*''")
    case True
    have rest: "parse_regex Quantified (replace_star cs @ ''$'') = Some (glob_regex cs @ [Eol])"
      using Cons.IH[of Quantified] Cons.prems by simp
    show ?thesis
      using True rest Cons.prems(2) by (cases st) (simp_all add: term_start_dot)
  next
    case False
    with Cons.prems have plain: "\<not> syntax_char c"
      by simp
    have rest: "parse_regex (Seen (Lit c)) (replace_star cs @ ''$'')
                  = Some (One (Lit c) # glob_regex cs @ [Eol])"
      using Cons.IH[of "Seen (Lit c)"] Cons.prems by simp
    show ?thesis
      using False rest Cons.prems(2) plain_not_quantifier[OF plain]
      by (cases st) (simp_all add: term_start_plain[OF plain])
  qed
qed

lemma matches_somewhere_later: "\<not> matches_somewhere (Bol # r) False s"
  by (induction s) auto

lemma matches_somewhere_anchored: "matches_somewhere (Bol # r) True s = matches_at r True s"
  by (cases s) (auto simp: matches_somewhere_later)

lemma regExp_test_anchored:
  assumes "parse_regex Fresh (body @ ''$'') = Some r"
  shows "regExp_test (''^'' @ body @ ''$'') s = Some (matches_at r True s)"
  using assms by (simp add: regExp_test_def term_start_def matches_somewhere_anchored)

lemma matches_at_glob:
  "\<forall>ch\<in>set s. \<not> line_terminator ch \<Longrightarrow>
   matches_at (glob_regex p @ [Eol]) b s = glob_match p s"
  by (induction p s arbitrary: b rule: glob_match.induct) auto

lemma matchPattern_glob:
  assumes "\<forall>ch\<in>set pattern. ch = CHR ''*'' \<or> \<not> syntax_char ch"
    and "\<forall>ch\<in>set str. \<not> line_terminator ch"
  shows "matchPattern regExp_test str pattern = Some (glob_match pattern str)"
proof -
  have "parse_regex Fresh (replace_star pattern @ ''$'') = Some (glob_regex pattern @ [Eol])"
    using parse_regex_glob[OF assms(1), of Fresh] by simp
  from regExp_test_anchored[OF this] show ?thesis
    using assms(2) by (simp add: matchPattern_source matches_at_glob)
qed

text \<open>
  So with this engine, for a pattern of \<open>*\<close> and characters that are no syntax characters
  and keys without line terminators, \<open>invalidatePattern\<close> deletes from the memory tier
  exactly the keys the glob pattern matches.
\<close>

lemma invalidatePattern_glob:
  assumes "regExpTest c = regExp_test"
    and "\<forall>ch\<in>set pattern. ch = CHR ''*'' \<or> \<not> syntax_char ch"
    and "\<forall>k\<in>fst ` set (memoryCache c). \<forall>ch\<in>set k. \<not> line_terminator ch"
  shows "map_option memoryCache (invalidatePattern pattern c)
           = Some (filter (\<lambda>kv. \<not> glob_match pattern (fst kv)) (memoryCache c))"
  using assms by (intro invalidatePattern_keeps_unmatched) (simp add: matchPattern_glob)

text \<open>The specification's example: \<open>position:AAPL*\<close> leaves \<open>position:MSFT\<close> alone.\<close>

lemma invalidatePattern_AAPL:
  "map_option (map fst \<circ> memoryCache) (invalidatePattern ''position:AAPL*'' symbol_cache)
     = Some [''position:MSFT'']"
proof -
  have plain: "\<forall>ch\<in>set ''position:AAPL*''. ch = CHR ''*'' \<or> \<not> syntax_char ch"
    by (simp add: syntax_char_def)
  have keys: "\<forall>k\<in>fst ` set (memoryCache symbol_cache). \<forall>ch\<in>set k. \<not> line_terminator ch"
    by (simp add: symbol_cache_def empty_cache_def line_terminator_def)
  have engine: "regExpTest symbol_cache = regExp_test"
    by (simp add: symbol_cache_def empty_cache_def)
  have "map_option memoryCache (invalidatePattern ''position:AAPL*'' symbol_cache)
      = Some (filter (\<lambda>kv. \<not> glob_match ''position:AAPL*'' (fst kv)) (memoryCache symbol_cache))"
    using invalidatePattern_glob[OF engine plain keys] .
  then show ?thesis
    by (auto simp: symbol_cache_def empty_cache_def split: option.splits)
qed

text \<open>What the engine answers on some expressions with other syntax.\<close>

lemma regExp_test_examples:
  "matchPattern regExp_test ''aa'' ''a+'' = Some True"
  "matchPattern regExp_test ''position:^VIX'' ''position:^VIX*'' = Some False"
  "matchPattern regExp_test ''a?b'' ''a?b*'' = Some False"
  "matchPattern regExp_test ''ab'' ''a?b*'' = Some True"
  "matchPattern regExp_test ''x'' ''('' = None"
  "matchPattern regExp_test ''x'' ''+a'' = None"
  by (simp_all add: matchPattern_source regExp_test_def term_start_def syntax_char_def
      line_terminator_def)

text \<open>
  C8. \<open>invalidatePattern\<close> should delete exactly the keys its glob pattern matches, \<open>*\<close>
  being the wildcard. The pattern is compiled as a regular expression without escaping
  what else it holds. For the pattern \<open>position:BRK.B*\<close> (which a trade on the symbol
  \<open>BRK.B\<close> invalidates) the dot matches any character: the key \<open>position:BRKXB\<close>, which
  the glob pattern does not match, is deleted with \<open>position:BRK.B\<close>. And as \<open>.\<close> does
  not match a line feed, the key made of \<open>a\<close>, a line feed and \<open>b\<close>, which the glob
  pattern \<open>a*\<close> matches, is kept.
\<close>

theorem invalidatePattern_not_glob:
  "map_option (map fst \<circ> memoryCache) (invalidatePattern ''position:BRK.B*'' brk_cache) = Some []
   \<and> map fst (memoryCache brk_cache) = [''position:BRK.B'', ''position:BRKXB'']
   \<and> glob_match ''position:BRK.B*'' ''position:BRK.B''
   \<and> \<not> glob_match ''position:BRK.B*'' ''position:BRKXB''
   \<and> map_option (map fst \<circ> memoryCache) (invalidatePattern ''a*'' newline_cache)
        = Some [[CHR ''a'', CHR 0x0A, CHR ''b'']]
   \<and> glob_match ''a*'' [CHR ''a'', CHR 0x0A, CHR ''b'']"
  by (simp add: invalidatePattern_def brk_cache_def newline_cache_def empty_cache_def
      matchPattern_source regExp_test_def term_start_def syntax_char_def line_terminator_def
      map_delete_def Let_def)

section \<open>Properties of the lock manager\<close>

lemma acquireLock_acquired:
  "acquireLock k t db = (Inr (Some cl), db1) \<Longrightarrow>
     cl = Client (nextClient db)
     \<and> events db1 = events db @ [Connect cl, SetStatementTimeout cl (or_default t (lockTimeout db)),
                                TryAdvisoryLock cl (generateLockId db k)]
     \<and> heldLocks db1 = generateLockId db k # heldLocks db
     \<and> generateLockId db1 = generateLockId db \<and> failing db1 = failing db"
  by (auto simp: acquireLock_def Let_def split: if_splits)

lemma releaseLock_events:
  "events (snd (releaseLock cl k db))
     = events db @ [AdvisoryUnlock cl (generateLockId db k), Release cl]"
  by (simp add: releaseLock_def Let_def)

lemma releaseLock_heldLocks:
  "OpUnlock \<notin> set (failing db) \<Longrightarrow>
   heldLocks (snd (releaseLock cl k db)) = remove1 (generateLockId db k) (heldLocks db)"
  by (simp add: releaseLock_def Let_def)

lemma withLock_acquired:
  "acquireLock k t db = (Inr (Some cl), db1) \<Longrightarrow>
   withLock k fn t (db, st) =
     ((case fst (releaseLock cl k db1) of Inl e \<Rightarrow> Inl e | Inr _ \<Rightarrow> fst (fn cl st)),
      snd (releaseLock cl k db1), snd (fn cl st))"
  by (simp add: withLock_def split_beta)

lemma tryWithLock_acquired:
  "acquireLock k t db = (Inr (Some cl), db1) \<Longrightarrow>
   tryWithLock k fn t (db, st) =
     ((case fst (releaseLock cl k db1) of Inl e \<Rightarrow> Inl e
       | Inr _ \<Rightarrow> map_sum id Some (fst (fn cl st))),
      snd (releaseLock cl k db1), snd (fn cl st))"
  by (simp add: tryWithLock_def split_beta)

text \<open>
  An error raised while acquiring (the pool gives no connection, a query is rejected) is
  passed on by both operations; the protected function does not run.
\<close>

lemma withLock_acquire_error:
  "acquireLock k t db = (Inl e, db1) \<Longrightarrow>
   withLock k fn t (db, st) = (Inl e, db1, st) \<and> tryWithLock k fn t (db, st) = (Inl e, db1, st)"
  by (simp add: withLock_def tryWithLock_def)

text \<open>With a working unlock query the result is the protected function's and the lock is given up.\<close>

lemma withLock_result:
  assumes "acquireLock k t db = (Inr (Some cl), db1)" and "OpUnlock \<notin> set (failing db)"
  shows "fst (withLock k fn t (db, st)) = fst (fn cl st)"
    and "heldLocks (fst (snd (withLock k fn t (db, st)))) = heldLocks db"
  using acquireLock_acquired[OF assms(1)] assms(2)
  by (simp_all add: withLock_acquired[OF assms(1)] releaseLock_def Let_def)

text \<open>
  C5. When the lock is not granted, \<open>withLock\<close> raises \<open>LockUnavailable\<close> and
  \<open>tryWithLock\<close> returns nothing, neither running the protected function. When it is
  granted to connection \<open>cl\<close>, then for every protected function, whatever it returns or
  raises, the calls either operation makes are: the three of the acquisition, then one
  unlock query for the key's lock, then one \<open>release\<close> of \<open>cl\<close>; so the lock and the
  connection are each released exactly once. If the database accepts the unlock query,
  the locks held are those held before. The protected function's state is kept.
\<close>

theorem withLock_tryWithLock_release:
  "(acquireLock k t db = (Inr None, db1) \<longrightarrow>
      withLock k fn t (db, st) = (Inl (LockUnavailable k), db1, st)
      \<and> tryWithLock k fn t (db, st) = (Inr None, db1, st))
   \<and> (acquireLock k t db = (Inr (Some cl), db1) \<longrightarrow>
      events (fst (snd (withLock k fn t (db, st))))
         = events db @ [Connect cl, SetStatementTimeout cl (or_default t (lockTimeout db)),
                        TryAdvisoryLock cl (generateLockId db k),
                        AdvisoryUnlock cl (generateLockId db k), Release cl]
      \<and> events (fst (snd (tryWithLock k fn t (db, st))))
         = events db @ [Connect cl, SetStatementTimeout cl (or_default t (lockTimeout db)),
                        TryAdvisoryLock cl (generateLockId db k),
                        AdvisoryUnlock cl (generateLockId db k), Release cl]
      \<and> (OpUnlock \<notin> set (failing db) \<longrightarrow>
            heldLocks (fst (snd (withLock k fn t (db, st)))) = heldLocks db
            \<and> heldLocks (fst (snd (tryWithLock k fn t (db, st)))) = heldLocks db)
      \<and> snd (snd (withLock k fn t (db, st))) = snd (fn cl st)
      \<and> snd (snd (tryWithLock k fn t (db, st))) = snd (fn cl st))"
proof (intro conjI impI)
  assume a: "acquireLock k t db = (Inr None, db1)"
  show "withLock k fn t (db, st) = (Inl (LockUnavailable k), db1, st)"
    using a by (simp add: withLock_def)
  show "tryWithLock k fn t (db, st) = (Inr None, db1, st)"
    using a by (simp add: tryWithLock_def)
next
  assume a: "acquireLock k t db = (Inr (Some cl), db1)"
  note ev = acquireLock_acquired[OF a]
  show "events (fst (snd (withLock k fn t (db, st))))
         = events db @ [Connect cl, SetStatementTimeout cl (or_default t (lockTimeout db)),
                        TryAdvisoryLock cl (generateLockId db k),
                        AdvisoryUnlock cl (generateLockId db k), Release cl]"
    using ev by (simp add: withLock_acquired[OF a] releaseLock_events)
  show "events (fst (snd (tryWithLock k fn t (db, st))))
         = events db @ [Connect cl, SetStatementTimeout cl (or_default t (lockTimeout db)),
                        TryAdvisoryLock cl (generateLockId db k),
                        AdvisoryUnlock cl (generateLockId db k), Release cl]"
    using ev by (simp add: tryWithLock_acquired[OF a] releaseLock_events)
  show "snd (snd (withLock k fn t (db, st))) = snd (fn cl st)"
    by (simp add: withLock_acquired[OF a])
  show "snd (snd (tryWithLock k fn t (db, st))) = snd (fn cl st)"
    by (simp add: tryWithLock_acquired[OF a])
next
  assume a: "acquireLock k t db = (Inr (Some cl), db1)" and u: "OpUnlock \<notin> set (failing db)"
  note ev = acquireLock_acquired[OF a]
  show "heldLocks (fst (snd (withLock k fn t (db, st)))) = heldLocks db"
    using ev u by (simp add: withLock_acquired[OF a] releaseLock_heldLocks)
  show "heldLocks (fst (snd (tryWithLock k fn t (db, st)))) = heldLocks db"
    using ev u by (simp add: tryWithLock_acquired[OF a] releaseLock_heldLocks)
qed

lemma acquireLock_busy_db:
  "acquireLock ''k'' None busy_db =
     (Inr None,
      busy_db\<lparr>nextClient := 1,
        events := [Connect (Client 0), SetStatementTimeout (Client 0) 5000,
                   TryAdvisoryLock (Client 0) 1, Release (Client 0)]\<rparr>)"
  by (simp add: acquireLock_def busy_db_def free_db_def Let_def or_default_def)

lemma acquireLock_free_db:
  "acquireLock ''k'' None free_db =
     (Inr (Some (Client 0)),
      free_db\<lparr>nextClient := 1,
        events := [Connect (Client 0), SetStatementTimeout (Client 0) 5000,
                   TryAdvisoryLock (Client 0) 1],
        heldLocks := [1]\<rparr>)"
  by (simp add: acquireLock_def free_db_def Let_def or_default_def)

theorem withLock_tryWithLock_release_witness:
  "fst (acquireLock ''k'' None busy_db) = Inr None
   \<and> fst (withLock ''k'' returning None (busy_db, 0)) = Inl (LockUnavailable ''k'')
   \<and> fst (tryWithLock ''k'' returning None (busy_db, 0)) = Inr None
   \<and> snd (snd (withLock ''k'' returning None (busy_db, 0))) = 0
   \<and> fst (acquireLock ''k'' None free_db) = Inr (Some (Client 0))
   \<and> OpUnlock \<notin> set (failing free_db)
   \<and> events (fst (snd (withLock ''k'' raising None (free_db, 0)))) =
        [Connect (Client 0), SetStatementTimeout (Client 0) 5000, TryAdvisoryLock (Client 0) 1,
         AdvisoryUnlock (Client 0) 1, Release (Client 0)]
   \<and> events (fst (snd (tryWithLock ''k'' returning None (free_db, 0)))) =
        [Connect (Client 0), SetStatementTimeout (Client 0) 5000, TryAdvisoryLock (Client 0) 1,
         AdvisoryUnlock (Client 0) 1, Release (Client 0)]
   \<and> heldLocks (fst (snd (withLock ''k'' raising None (free_db, 0)))) = []
   \<and> heldLocks (fst (snd (tryWithLock ''k'' returning None (free_db, 0)))) = []"
proof -
  have id: "generateLockId free_db ''k'' = 1" "lockTimeout free_db = 5000" "events free_db = []"
    "failing free_db = []" "heldLocks free_db = []"
    by (simp_all add: free_db_def)
  note busy = withLock_tryWithLock_release[where k = "''k''" and t = None and db = busy_db
      and fn = returning and st = 0,
      THEN conjunct1, rule_format, OF acquireLock_busy_db]
  note free1 = withLock_tryWithLock_release[where k = "''k''" and t = None and db = free_db
      and fn = raising and st = 0,
      THEN conjunct2, rule_format, OF acquireLock_free_db]
  note free2 = withLock_tryWithLock_release[where k = "''k''" and t = None and db = free_db
      and fn = returning and st = 0,
      THEN conjunct2, rule_format, OF acquireLock_free_db]
  show ?thesis
    using busy free1 free2 id
    by (simp add: acquireLock_busy_db acquireLock_free_db or_default_def)
qed

section \<open>Properties of the coordinator\<close>

lemma getPosition_flat_service:
  "getPosition ''AAPL'' (cacheService flat_service) = (None, cacheService flat_service)"
  by (simp add: getPosition_def cache_get_def get_from_redis_def flat_service_def empty_cache_def)

lemma getPosition_long_service:
  "getPosition ''AAPL'' (cacheService long_service) = (Some long_position, cacheService long_service)"
  by (simp add: getPosition_def cache_get_def long_service_def flat_service_def empty_cache_def)

text \<open>
  The position a trade computes and stores is what a read finds right after the store,
  before the invalidation.
\<close>

lemma storePosition_then_getPosition:
  "getPosition smb (storePosition smb p c) = (Some p, storePosition smb p c)"
proof -
  let ?c' = "storePosition smb p c"
  let ?e = "\<lparr>data = CPosition p, timestamp = clock c, ttl = 300000\<rparr>"
  have e: "map_of (memoryCache ?c') (''position:'' @ smb) = Some ?e"
    by (simp add: storePosition_def cache_set_memoryCache setMemory_def Let_def map_of_map_set
        or_default_def)
  have clk: "clock ?c' = clock c"
    by (simp add: storePosition_def cache_set_def setMemory_def Let_def)
  have "cache_get (''position:'' @ smb) ?c' = (Some (CPosition p), ?c')"
    using cache_get_live[OF e] clk by simp
  then show ?thesis
    by (simp add: getPosition_def)
qed

text \<open>
  C9. When the position read for the symbol is absent or has quantity zero,
  \<open>closePosition\<close> returns nothing, as a normal result, and leaves the lock manager as
  it was: no connection is taken and no lock query issued. Otherwise its result is that
  of \<open>executeTrade\<close> for the same symbol and price, with side sell for a positive
  quantity and buy for a negative one, and the absolute value of the quantity read.
\<close>

theorem closePosition_cases:
  "((fst (getPosition smb (cacheService s)) = None
       \<or> (\<exists>p. fst (getPosition smb (cacheService s)) = Some p \<and> quantity p = 0)) \<longrightarrow>
      closePosition smb price tradeId s
        = (Inr None, s\<lparr>cacheService := snd (getPosition smb (cacheService s))\<rparr>)
      \<and> advisoryLockService (snd (closePosition smb price tradeId s)) = advisoryLockService s)
   \<and> (fst (getPosition smb (cacheService s)) = Some p \<and> quantity p \<noteq> 0 \<longrightarrow>
      closePosition smb price tradeId s
        = (case executeTrade smb (if quantity p > 0 then Sell else Buy) \<bar>quantity p\<bar> price tradeId
                 (s\<lparr>cacheService := snd (getPosition smb (cacheService s))\<rparr>) of
             (r, s2) \<Rightarrow> (map_sum id Some r, s2)))"
  by (auto simp: closePosition_def Let_def split_beta split: option.splits)

theorem closePosition_cases_witness:
  "fst (getPosition ''AAPL'' (cacheService flat_service)) = None
   \<and> closePosition ''AAPL'' 170 ''t1'' flat_service = (Inr None, flat_service)
   \<and> fst (getPosition ''AAPL'' (cacheService long_service)) = Some long_position
   \<and> quantity long_position \<noteq> 0
   \<and> closePosition ''AAPL'' 170 ''t1'' long_service
       = (case executeTrade ''AAPL'' Sell 100 170 ''t1'' long_service of
            (r, s2) \<Rightarrow> (map_sum id Some r, s2))"
proof -
  have q: "quantity long_position = 100"
    by (simp add: long_position_def)
  have flat: "closePosition ''AAPL'' 170 ''t1'' flat_service = (Inr None, flat_service)"
    using closePosition_cases[where smb = "''AAPL''" and s = flat_service and price = 170
        and tradeId = "''t1''", THEN conjunct1]
    by (simp add: getPosition_flat_service)
  have long: "closePosition ''AAPL'' 170 ''t1'' long_service
       = (case executeTrade ''AAPL'' Sell 100 170 ''t1'' long_service of
            (r, s2) \<Rightarrow> (map_sum id Some r, s2))"
    using closePosition_cases[where smb = "''AAPL''" and s = long_service and p = long_position
        and price = 170 and tradeId = "''t1''", THEN conjunct2]
    by (simp add: getPosition_long_service q)
  show ?thesis
    using flat long q by (simp add: getPosition_flat_service getPosition_long_service)
qed

text \<open>The trade that closes the example position is executed and filled.\<close>

lemma executeTrade_long_service:
  "fst (executeTrade ''AAPL'' Sell 100 170 ''t1'' long_service) =
     Inr \<lparr>trade_id = ''t1'', trade_symbol = ''AAPL'', trade_side = Sell,
          trade_quantity = 100, trade_price = 170, trade_timestamp = 1000,
          trade_status = Filled\<rparr>"
  by (simp add: executeTrade_def withLock_def acquireLock_def releaseLock_def tradeBody_def
      long_service_def flat_service_def free_db_def empty_cache_def Let_def or_default_def
      getPosition_def cache_get_def storePosition_def storeTrade_def cache_set_def setMemory_def
      invalidatePattern_def matchPattern_source regExp_test_def term_start_def syntax_char_def
      line_terminator_def map_delete_def)

text \<open>
  C10. \<open>getAllPositions\<close> returns the empty sequence in every state of the service,
  whatever its cache holds, and so in the state a trade leaves behind.
\<close>

theorem getAllPositions_empty:
  "fst (getAllPositions s) = []
   \<and> fst (getAllPositions (snd (executeTrade smb sd qty price tradeId s))) = []"
  by (simp add: getAllPositions_def)

subsection \<open>What a trade leaves in the cache\<close>

text \<open>
  The pattern \<open>position:SYMBOL*\<close> is meant for the entries derived from the symbol's
  position, but it matches the key \<open>position:SYMBOL\<close> itself: Redis does so for every
  symbol, and the translated expression whenever the engine matches the key with it, as
  it does for the symbols the API admits. The invalidation that follows \<open>storePosition\<close>
  then removes the position just stored from both tiers, and after a trade that
  succeeded the position of its symbol reads as absent.
\<close>

lemma glob_star_skip: "glob_match ps s \<Longrightarrow> glob_match (CHR ''*'' # ps) s"
  by (cases s) auto

lemma glob_match_self: "glob_match (p @ ''*'') p"
  by (induction p) (auto simp: glob_star_skip)

lemma cache_set_flags:
  "redisReady (cache_set k v t c) = redisReady c" "redisDown (cache_set k v t c) = redisDown c"
  by (simp_all add: cache_set_def setMemory_def Let_def)

lemma cache_set_regExpTest: "regExpTest (cache_set k v t c) = regExpTest c"
  by (simp add: cache_set_def setMemory_def Let_def)

lemma cache_get_regExpTest: "regExpTest (snd (cache_get k c)) = regExpTest c"
  by (simp add: cache_get_def get_from_redis_def setMemory_def Let_def split: option.splits)

lemma getPosition_regExpTest: "regExpTest (snd (getPosition smb c)) = regExpTest c"
proof -
  have "snd (getPosition smb c) = snd (cache_get (''position:'' @ smb) c)"
    by (simp add: getPosition_def split: prod.splits option.splits cached.splits)
  then show ?thesis
    by (simp add: cache_get_regExpTest)
qed

lemma setMemory_absent:
  "k' \<noteq> k \<Longrightarrow> map_of (memoryCache c) k' = None \<Longrightarrow>
   map_of (memoryCache (setMemory k v t c)) k' = None"
  by (auto simp: setMemory_def Let_def map_of_map_set map_of_map_delete split: list.splits)

lemma cache_set_memory_absent:
  "k' \<noteq> k \<Longrightarrow> map_of (memoryCache c) k' = None \<Longrightarrow>
   map_of (memoryCache (cache_set k v t c)) k' = None"
  by (simp add: cache_set_def Let_def setMemory_absent)

lemma setMemory_redisStore: "redisStore (setMemory k v t c) = redisStore c"
  by (simp add: setMemory_def Let_def)

lemma cache_set_redis_absent:
  "k' \<noteq> k \<Longrightarrow> map_of (redisStore c) k' = None \<Longrightarrow>
   map_of (redisStore (cache_set k v t c)) k' = None"
  by (simp add: cache_set_def Let_def setMemory_redisStore map_of_map_set)

lemma invalidatePattern_drops_key:
  assumes "invalidatePattern (k @ ''*'') c = Some c'"
    and "matchPattern (regExpTest c) k (k @ ''*'') = Some True"
  shows "map_of (memoryCache c') k = None"
    and "redisReady c' \<and> \<not> redisDown c' \<longrightarrow> map_of (redisStore c') k = None"
proof -
  from assms(1) obtain ks
    where ks: "keysToDelete (regExpTest c) (k @ ''*'') (map fst (memoryCache c)) = Some ks"
    by (auto simp: invalidatePattern_def split: option.splits)
  have c': "c' = (if redisReady c \<and> \<not> redisDown c
                  then c\<lparr>memoryCache := fold map_delete ks (memoryCache c),
                         redisStore := fold map_delete (redis_keys (k @ ''*'') c) (redisStore c)\<rparr>
                  else c\<lparr>memoryCache := fold map_delete ks (memoryCache c)\<rparr>)"
    using assms(1) ks by (auto simp: invalidatePattern_def Let_def redis_keys_def)
  have mem: "memoryCache c' = filter (\<lambda>kv. fst kv \<notin> set ks) (memoryCache c)"
    by (simp add: c' fold_map_delete)
  show "map_of (memoryCache c') k = None"
  proof (cases "k \<in> set ks")
    case True
    then show ?thesis
      by (simp add: mem map_of_filter_keys[where P = "\<lambda>x. x \<notin> set ks"])
  next
    case False
    with keysToDelete_member[OF ks _ assms(2)] have "k \<notin> fst ` set (memoryCache c)"
      by auto
    then have "map_of (memoryCache c) k = None"
      by (simp add: map_of_eq_None_iff)
    then show ?thesis
      by (simp add: mem map_of_filter_keys[where P = "\<lambda>x. x \<notin> set ks"])
  qed
  show "redisReady c' \<and> \<not> redisDown c' \<longrightarrow> map_of (redisStore c') k = None"
  proof
    assume up: "redisReady c' \<and> \<not> redisDown c'"
    then have up0: "redisReady c \<and> \<not> redisDown c"
      by (auto simp: c' split: if_splits)
    let ?rk = "redis_keys (k @ ''*'') c"
    have st: "redisStore c' = filter (\<lambda>kv. fst kv \<notin> set ?rk) (redisStore c)"
      using up0 by (simp add: c' fold_map_delete)
    show "map_of (redisStore c') k = None"
    proof (cases "k \<in> set ?rk")
      case True
      then show ?thesis
        by (simp add: st map_of_filter_keys[where P = "\<lambda>x. x \<notin> set ?rk"])
    next
      case False
      then have "k \<notin> fst ` set (redisStore c)"
        by (auto simp: redis_keys_def glob_match_self)
      then have "map_of (redisStore c) k = None"
        by (simp add: map_of_eq_None_iff)
      then show ?thesis
        by (simp add: st map_of_filter_keys[where P = "\<lambda>x. x \<notin> set ?rk"])
    qed
  qed
qed

lemma tradeBody_forgets_position:
  assumes "tradeBody smb sd qty price tradeId cl c = (Inr t, c')"
    and "matchPattern (regExpTest c) (''position:'' @ smb) (''position:'' @ smb @ ''*'') = Some True"
  shows "getPosition smb c' = (None, c')"
proof -
  obtain pos c1 where g: "getPosition smb c = (pos, c1)"
    by (cases "getPosition smb c")
  let ?c2 = "storePosition smb (calculateNewPosition pos sd qty price smb) c1"
  from assms(1) g obtain c3
    where inv: "invalidatePattern ((''position:'' @ smb) @ ''*'') ?c2 = Some c3"
      and c': "c' = storeTrade (\<lparr>trade_id = tradeId, trade_symbol = smb, trade_side = sd,
                       trade_quantity = qty, trade_price = price,
                       trade_timestamp = clock c3, trade_status = Filled\<rparr>) c3"
    by (auto simp: tradeBody_def Let_def split: option.splits)
  have "regExpTest ?c2 = regExpTest c"
    using getPosition_regExpTest[of smb c] g by (simp add: storePosition_def cache_set_regExpTest)
  with assms(2)
  have own: "matchPattern (regExpTest ?c2) (''position:'' @ smb) ((''position:'' @ smb) @ ''*'')
               = Some True"
    by simp
  note gone = invalidatePattern_drops_key[OF inv own]
  have keys: "''position:'' @ smb \<noteq> ''trade:'' @ tradeId"
    by simp
  have l1: "map_of (memoryCache c') (''position:'' @ smb) = None"
    unfolding c' storeTrade_def using gone(1) keys by (intro cache_set_memory_absent) simp_all
  have l2: "redisReady c' \<and> \<not> redisDown c' \<longrightarrow> map_of (redisStore c') (''position:'' @ smb) = None"
    unfolding c' storeTrade_def using gone(2) keys
    by (auto simp: cache_set_flags intro!: cache_set_redis_absent)
  show ?thesis
    using cache_get_absent[OF l1 l2] by (simp add: getPosition_def)
qed

lemma getPositionBySymbol_fst:
  "fst (getPositionBySymbol smb s) = fst (getPosition smb (cacheService s))"
  by (simp add: getPositionBySymbol_def split_beta)

lemma executeTrade_forgets_position:
  assumes "executeTrade smb sd qty price tradeId s = (Inr t, s')"
    and "matchPattern (regExpTest (cacheService s)) (''position:'' @ smb)
           (''position:'' @ smb @ ''*'') = Some True"
  shows "fst (getPositionBySymbol smb s') = None"
proof -
  from assms(1) have on: "enabled s"
    by (auto simp: executeTrade_def split: if_splits)
  obtain res db c where w: "withLock (''paper_trade:'' @ smb) (tradeBody smb sd qty price tradeId) None
      (advisoryLockService s, cacheService s) = (res, db, c)"
    by (metis prod_cases3)
  from assms(1) on w have res: "res = Inr t" and s': "cacheService s' = c"
    by (auto simp: executeTrade_def Let_def)
  from w res obtain cl where "fst (tradeBody smb sd qty price tradeId cl (cacheService s)) = Inr t"
      and "snd (tradeBody smb sd qty price tradeId cl (cacheService s)) = c"
    by (auto simp: withLock_def split_beta split: prod.splits sum.splits option.splits)
  then have body: "tradeBody smb sd qty price tradeId cl (cacheService s) = (Inr t, c)"
    by (metis prod.collapse)
  from tradeBody_forgets_position[OF body assms(2)] show ?thesis
    by (simp add: getPositionBySymbol_fst s')
qed

text \<open>
  The engine matches the key with the pattern for every symbol made of the characters
  the API admits (letters, digits, dot, slash, hyphen): none is a syntax character but
  the dot, and the dot matches itself among others.
\<close>

lemma parse_regex_own:
  assumes "\<forall>ch\<in>set k. ch = CHR ''.'' \<or> \<not> syntax_char ch" and "st \<noteq> Escaped"
  shows "parse_regex st (k @ ''.*$'')
           = Some ((case st of Seen a \<Rightarrow> [One a] | _ \<Rightarrow> []) @ own_items k @ [Star AnyChar, Eol])"
  using assms
proof (induction k arbitrary: st)
  case Nil
  then show ?case
    by (cases st) (simp_all add: term_start_dot term_start_end)
next
  case (Cons c cs)
  show ?case
  proof (cases "c = CHR ''.''")
    case True
    have rest: "parse_regex (Seen AnyChar) (cs @ ''.*$'')
                  = Some (One AnyChar # own_items cs @ [Star AnyChar, Eol])"
      using Cons.IH[of "Seen AnyChar"] Cons.prems by simp
    show ?thesis
      using True rest Cons.prems(2) by (cases st) (simp_all add: term_start_dot)
  next
    case False
    with Cons.prems have plain: "\<not> syntax_char c"
      by simp
    have rest: "parse_regex (Seen (Lit c)) (cs @ ''.*$'')
                  = Some (One (Lit c) # own_items cs @ [Star AnyChar, Eol])"
      using Cons.IH[of "Seen (Lit c)"] Cons.prems by simp
    show ?thesis
      using False rest Cons.prems(2) plain_not_quantifier[OF plain]
      by (cases st) (simp_all add: term_start_plain[OF plain])
  qed
qed

lemma matches_at_own:
  "\<forall>ch\<in>set k. ch = CHR ''.'' \<or> \<not> syntax_char ch \<Longrightarrow>
   matches_at (own_items k @ [Star AnyChar, Eol]) b k"
  by (induction k arbitrary: b) (auto simp: line_terminator_def)

lemma replace_star_none: "CHR ''*'' \<notin> set k \<Longrightarrow> replace_star k = k"
  by (induction k) auto

lemma replace_star_append: "replace_star (xs @ ys) = replace_star xs @ replace_star ys"
  by (induction xs) auto

lemma matchPattern_own_key:
  assumes "\<forall>ch\<in>set k. ch = CHR ''.'' \<or> \<not> syntax_char ch"
  shows "matchPattern regExp_test k (k @ ''*'') = Some True"
proof -
  have "CHR ''*'' \<notin> set k"
  proof
    assume "CHR ''*'' \<in> set k"
    with assms have "CHR ''*'' = CHR ''.'' \<or> \<not> syntax_char (CHR ''*'')"
      by blast
    then show False
      by (simp add: syntax_char_def)
  qed
  then have src: "replace_star (k @ ''*'') = k @ ''.*''"
    by (simp add: replace_star_append replace_star_none)
  have parsed: "parse_regex Fresh ((k @ ''.*'') @ ''$'') = Some (own_items k @ [Star AnyChar, Eol])"
    using parse_regex_own[OF assms, of Fresh] by simp
  have "matchPattern regExp_test k (k @ ''*'') = regExp_test (''^'' @ (k @ ''.*'') @ ''$'') k"
    unfolding matchPattern_source src ..
  also have "\<dots> = Some (matches_at (own_items k @ [Star AnyChar, Eol]) True k)"
    by (rule regExp_test_anchored[OF parsed])
  also have "\<dots> = Some True"
    using matches_at_own[OF assms, of True] by simp
  finally show ?thesis .
qed

lemma executeTrade_forgets_symbol:
  assumes "executeTrade smb sd qty price tradeId s = (Inr t, s')"
    and "regExpTest (cacheService s) = regExp_test"
    and "\<forall>ch\<in>set smb. ch = CHR ''.'' \<or> \<not> syntax_char ch"
  shows "fst (getPositionBySymbol smb s') = None"
proof -
  have prefix: "\<forall>ch\<in>set ''position:''. ch = CHR ''.'' \<or> \<not> syntax_char ch"
    by (simp add: syntax_char_def)
  have "\<forall>ch\<in>set (''position:'' @ smb). ch = CHR ''.'' \<or> \<not> syntax_char ch"
    unfolding set_append using prefix assms(3) by blast
  from matchPattern_own_key[OF this] assms(2)
  have "matchPattern (regExpTest (cacheService s)) (''position:'' @ smb)
          (''position:'' @ smb @ ''*'') = Some True"
    by simp
  from executeTrade_forgets_position[OF assms(1) this] show ?thesis .
qed

text \<open>
  The specification's own sequence: a buy of 100 at 150 on a flat symbol, then a buy of
  100 at 160. After the first trade the position reads as absent, so the second trade
  computes its position from none: 100 at 160.
\<close>

lemma executeTrade_twice:
  "fst (executeTrade ''AAPL'' Buy 100 150 ''t1'' flat_service) =
     Inr \<lparr>trade_id = ''t1'', trade_symbol = ''AAPL'', trade_side = Buy,
          trade_quantity = 100, trade_price = 150, trade_timestamp = 1000,
          trade_status = Filled\<rparr>
   \<and> fst (getPositionBySymbol ''AAPL''
            (snd (executeTrade ''AAPL'' Buy 100 150 ''t1'' flat_service))) = None"
proof -
  have first: "fst (executeTrade ''AAPL'' Buy 100 150 ''t1'' flat_service) =
     Inr \<lparr>trade_id = ''t1'', trade_symbol = ''AAPL'', trade_side = Buy,
          trade_quantity = 100, trade_price = 150, trade_timestamp = 1000,
          trade_status = Filled\<rparr>"
    by (simp add: executeTrade_def withLock_def acquireLock_def releaseLock_def tradeBody_def
        flat_service_def free_db_def empty_cache_def Let_def or_default_def
        getPosition_def cache_get_def get_from_redis_def storePosition_def storeTrade_def
        cache_set_def setMemory_def invalidatePattern_def matchPattern_source regExp_test_def
        term_start_def syntax_char_def line_terminator_def map_delete_def)
  have engine: "regExpTest (cacheService flat_service) = regExp_test"
    by (simp add: flat_service_def empty_cache_def)
  have symbol: "\<forall>ch\<in>set ''AAPL''. ch = CHR ''.'' \<or> \<not> syntax_char ch"
    by (simp add: syntax_char_def)
  from first show ?thesis
    using executeTrade_forgets_symbol[of "''AAPL''" Buy 100 150 "''t1''" flat_service, OF _ engine symbol]
    by (metis prod.collapse)
qed

lemma executeTrade_second_trade:
  "calculateNewPosition
     (fst (getPosition ''AAPL''
        (cacheService (snd (executeTrade ''AAPL'' Buy 100 150 ''t1'' flat_service)))))
     Buy 100 160 ''AAPL''
   = \<lparr>symbol = ''AAPL'', quantity = 100, averagePrice = Some 160,
      unrealizedPnL = 0, realizedPnL = Some 0\<rparr>"
  using executeTrade_twice by (simp add: getPositionBySymbol_fst)

text \<open>
  It is the shape of the symbol that decides. In the pattern of the symbol \<open>^VIX\<close> the
  caret is an assertion that fails after the first character, so the expression matches
  no key and the position stays in the memory tier.
\<close>

lemma executeTrade_caret_symbol:
  "fst (executeTrade ''^VIX'' Buy 100 150 ''t1'' flat_service) =
     Inr \<lparr>trade_id = ''t1'', trade_symbol = ''^VIX'', trade_side = Buy,
          trade_quantity = 100, trade_price = 150, trade_timestamp = 1000,
          trade_status = Filled\<rparr>
   \<and> fst (getPositionBySymbol ''^VIX''
            (snd (executeTrade ''^VIX'' Buy 100 150 ''t1'' flat_service)))
       = Some \<lparr>symbol = ''^VIX'', quantity = 100, averagePrice = Some 150,
               unrealizedPnL = 0, realizedPnL = Some 0\<rparr>"
  by (simp add: executeTrade_def withLock_def acquireLock_def releaseLock_def tradeBody_def
      flat_service_def free_db_def empty_cache_def Let_def or_default_def getPositionBySymbol_def
      getPosition_def cache_get_def get_from_redis_def storePosition_def storeTrade_def
      cache_set_def setMemory_def invalidatePattern_def matchPattern_source regExp_test_def
      term_start_def syntax_char_def line_terminator_def map_delete_def)

text \<open>
  C4. On a symbol with no position, \<open>executeTrade\<close> should yield the position of quantity
  \<open>+qty\<close> for a buy (\<open>-qty\<close> for a sell) at the trade price with no realised profit. For
  a buy of 100 at 150 on a service with nothing cached and Redis connected, the trade
  computes that position, stores it (a read right after the store finds it) and returns
  the filled trade; but the invalidation of \<open>position:AAPL*\<close> in the same call deletes
  the key \<open>position:AAPL\<close> from the memory tier and from Redis, so that both hold the
  trade record only and the position of the symbol reads as absent after the trade.
\<close>

theorem executeTrade_position_not_kept:
  "fst (getPosition ''AAPL'' (cacheService ready_service)) = None
   \<and> calculateNewPosition None Buy 100 150 ''AAPL'' = long_position
   \<and> calculateNewPosition None Sell 100 150 ''AAPL'' = short_position
   \<and> fst (getPosition ''AAPL''
            (storePosition ''AAPL'' long_position (cacheService ready_service)))
       = Some long_position
   \<and> fst (executeTrade ''AAPL'' Buy 100 150 ''t1'' ready_service) =
       Inr \<lparr>trade_id = ''t1'', trade_symbol = ''AAPL'', trade_side = Buy,
            trade_quantity = 100, trade_price = 150, trade_timestamp = 1000,
            trade_status = Filled\<rparr>
   \<and> map fst (memoryCache (cacheService (snd (executeTrade ''AAPL'' Buy 100 150 ''t1'' ready_service))))
       = [''trade:t1'']
   \<and> map fst (redisStore (cacheService (snd (executeTrade ''AAPL'' Buy 100 150 ''t1'' ready_service))))
       = [''trade:t1'']
   \<and> fst (getPositionBySymbol ''AAPL''
            (snd (executeTrade ''AAPL'' Buy 100 150 ''t1'' ready_service))) = None"
  by (simp add: executeTrade_def withLock_def acquireLock_def releaseLock_def tradeBody_def
      ready_service_def flat_service_def free_db_def empty_cache_def long_position_def
      short_position_def Let_def or_default_def getPositionBySymbol_def
      getPosition_def cache_get_def get_from_redis_def redis_get_def redis_keys_def
      storePosition_def storeTrade_def
      cache_set_def setMemory_def invalidatePattern_def matchPattern_source regExp_test_def
      term_start_def syntax_char_def line_terminator_def map_delete_def)

end
